theory Spec2Isabelle
  imports Complex_Main "HOL-Library.Sublist"
begin

section \<open>Python values and the operations the server applies to them\<close>

text \<open>
  Every value the server reads from a request body or from an outbound reply is the
  result of parsing JSON. A dict is an association list (lookup takes the first binding;
  a parsed dict has distinct keys). JSON numbers are Python ints; numbers with a
  fractional part are outside this value domain.
\<close>

datatype json =
    JNull
  | JBool bool
  | JInt int
  | JStr string
  | JList "json list"
  | JObj "(string \<times> json) list"

text \<open>
  Exceptions: \<open>requests.Timeout\<close>, and every other \<open>Exception\<close> with its
  \<open>str(e)\<close>.
\<close>

datatype exn = Timeout | Error string

definition bind_exn :: "exn + 'a \<Rightarrow> ('a \<Rightarrow> exn + 'b) \<Rightarrow> exn + 'b" where
  "bind_exn r k = (case r of Inl e \<Rightarrow> Inl e | Inr v \<Rightarrow> k v)"

fun truthy :: "json \<Rightarrow> bool" where
  "truthy JNull = False"
| "truthy (JBool b) = b"
| "truthy (JInt n) = (n \<noteq> 0)"
| "truthy (JStr s) = (s \<noteq> [])"
| "truthy (JList xs) = (xs \<noteq> [])"
| "truthy (JObj kvs) = (kvs \<noteq> [])"

fun type_name :: "json \<Rightarrow> string" where
  "type_name JNull = ''NoneType''"
| "type_name (JBool b) = ''bool''"
| "type_name (JInt n) = ''int''"
| "type_name (JStr s) = ''str''"
| "type_name (JList xs) = ''list''"
| "type_name (JObj kvs) = ''dict''"

text \<open>A name between single quotes, as Python's messages write it.\<close>

definition quoted :: "string \<Rightarrow> string" where
  "quoted s = CHR 0x27 # s @ [CHR 0x27]"

text \<open>\<open>a or b\<close>\<close>

definition py_or :: "json \<Rightarrow> json \<Rightarrow> json" where
  "py_or a b = (if truthy a then a else b)"

text \<open>\<open>v.get(key, default)\<close>: only a dict has it.\<close>

fun py_get :: "json \<Rightarrow> string \<Rightarrow> json \<Rightarrow> exn + json" where
  "py_get (JObj kvs) key dflt =
     Inr (case map_of kvs key of None \<Rightarrow> dflt | Some v \<Rightarrow> v)"
| "py_get v key dflt =
     Inl (Error (quoted (type_name v) @ '' object has no attribute '' @ quoted ''get''))"

text \<open>bool is a subclass of int: \<open>True\<close> counts as 1 and \<open>False\<close> as 0.\<close>

fun as_number :: "json \<Rightarrow> int option" where
  "as_number (JInt n) = Some n"
| "as_number (JBool b) = Some (if b then 1 else 0)"
| "as_number v = None"

text \<open>\<open>v == n\<close> for an int literal \<open>n\<close>\<close>

definition py_eq_int :: "json \<Rightarrow> int \<Rightarrow> bool" where
  "py_eq_int v n = (as_number v = Some n)"

text \<open>Decimal digits of a number, as \<open>str\<close> of an int writes them.\<close>

definition digit_char :: "nat \<Rightarrow> char" where
  "digit_char d = ''0123456789'' ! d"

fun show_nat :: "nat \<Rightarrow> string" where
  "show_nat n = (if n < 10 then [digit_char n] else show_nat (n div 10) @ [digit_char (n mod 10)])"

declare show_nat.simps [simp del]

definition show_int :: "int \<Rightarrow> string" where
  "show_int i = (if i < 0 then CHR ''-'' # show_nat (nat (- i)) else show_nat (nat i))"

text \<open>
  \<open>str(v)\<close>. The text of a list or a dict is Python's \<open>repr\<close> of it, which is not
  modelled: it is the parameter \<open>repr\<close>.
\<close>

fun py_str :: "(json \<Rightarrow> string) \<Rightarrow> json \<Rightarrow> string" where
  "py_str repr JNull = ''None''"
| "py_str repr (JBool b) = (if b then ''True'' else ''False'')"
| "py_str repr (JInt n) = show_int n"
| "py_str repr (JStr s) = s"
| "py_str repr v = repr v"

text \<open>
  \<open>a > b\<close>. Numbers compare by value, strings by their characters; two lists compare
  element by element in Python, which is not modelled: it is the parameter
  \<open>list_gt\<close>. Every other pairing raises TypeError.
\<close>

definition string_gt :: "string \<Rightarrow> string \<Rightarrow> bool" where
  "string_gt a b = ((map of_char b :: nat list, map of_char a) \<in> lexord {(x, y). x < y})"

definition not_supported :: "string \<Rightarrow> json \<Rightarrow> json \<Rightarrow> exn" where
  "not_supported opr a b =
     Error (quoted opr @ '' not supported between instances of ''
        @ quoted (type_name a) @ '' and '' @ quoted (type_name b))"

fun py_gt :: "(json list \<Rightarrow> json list \<Rightarrow> exn + bool) \<Rightarrow> json \<Rightarrow> json \<Rightarrow> exn + bool" where
  "py_gt list_gt (JStr a) (JStr b) = Inr (string_gt a b)"
| "py_gt list_gt (JList a) (JList b) = list_gt a b"
| "py_gt list_gt a b =
     (case (as_number a, as_number b) of
        (Some x, Some y) \<Rightarrow> Inr (x > y)
      | _ \<Rightarrow> Inl (not_supported ''>'' a b))"

text \<open>\<open>a - b\<close>: defined on numbers only.\<close>

definition py_sub :: "json \<Rightarrow> json \<Rightarrow> exn + int" where
  "py_sub a b =
     (case (as_number a, as_number b) of
        (Some x, Some y) \<Rightarrow> Inr (x - y)
      | _ \<Rightarrow> Inl (Error (''unsupported operand type(s) for -: '' @ quoted (type_name a)
                @ '' and '' @ quoted (type_name b))))"

text \<open>
  \<open>key in v\<close> for a string \<open>key\<close>: a key of a dict, an element of a list, a
  substring of a string; any other value is not iterable.
\<close>

fun py_in :: "string \<Rightarrow> json \<Rightarrow> exn + bool" where
  "py_in key (JObj kvs) = Inr (map_of kvs key \<noteq> None)"
| "py_in key (JList xs) = Inr (JStr key \<in> set xs)"
| "py_in key (JStr s) = Inr (sublist key s)"
| "py_in key v = Inl (Error (''argument of type '' @ quoted (type_name v) @ '' is not iterable''))"

text \<open>\<open>v[key]\<close> for a string \<open>key\<close>, where \<open>key in v\<close> has held.\<close>

fun py_item :: "json \<Rightarrow> string \<Rightarrow> exn + json" where
  "py_item (JObj kvs) key =
     (case map_of kvs key of
        None \<Rightarrow> Inl (Error (quoted key))
      | Some v \<Rightarrow> Inr v)"
| "py_item (JList xs) key = Inl (Error ''list indices must be integers or slices, not str'')"
| "py_item (JStr s) key = Inl (Error (''string indices must be integers, not '' @ quoted ''str''))"
| "py_item v key = Inl (Error (quoted (type_name v) @ '' object is not subscriptable''))"

section \<open>The process-wide store\<close>

datatype status = success | failed

text \<open>
  An account dict. A \<open>success\<close> record has \<open>sessionToken\<close> and \<open>gems\<close> and no
  \<open>error\<close>; a \<open>failed\<close> record has \<open>error\<close> and neither of the other two.
\<close>

record account =
  email :: string
  password :: string
  sessionToken :: "json option"
  gems :: "json option"
  timestamp :: string
  status :: status
  error :: "string option"

record settings =
  main_session_token :: json
  local_id :: json
  total_gems :: json
  generation_count :: int

record server =
  accounts :: "account list"
  settings :: settings
  rate_limits :: "string \<rightharpoonup> real list"

definition initial :: server where
  "initial =
     \<lparr>accounts = [],
      settings = \<lparr>main_session_token = JStr [], local_id = JStr [],
                  total_gems = JInt 0, generation_count = 0\<rparr>,
      rate_limits = Map.empty\<rparr>"

section \<open>/api/clear\<close>

datatype clear_response = Cleared

definition clear_accounts :: "server \<Rightarrow> server \<times> clear_response" where
  "clear_accounts st =
     (st\<lparr>accounts := [], settings := (settings st)\<lparr>generation_count := 0\<rparr>\<rparr>, Cleared)"

section \<open>/api/settings\<close>

text \<open>
  The route accepts GET and POST. The body is \<open>request.get_json(silent=True)\<close>:
  \<open>None\<close> when the request carries no JSON that parses. A handler that raises is
  answered by the global error handler with status 500; the result \<open>Inl e\<close> is that
  case, with the store as the handler left it.
\<close>

datatype http_method = GET | POST

datatype settings_response = SettingsUpdated settings | SettingsView settings

definition set_main_session_token :: "json \<Rightarrow> server \<Rightarrow> exn + server" where
  "set_main_session_token data st =
     bind_exn (py_in ''main_session_token'' data) (\<lambda>present.
       if present then
         bind_exn (py_item data ''main_session_token'') (\<lambda>v.
           Inr (st\<lparr>settings := (settings st)\<lparr>main_session_token := v\<rparr>\<rparr>))
       else Inr st)"

definition set_local_id :: "json \<Rightarrow> server \<Rightarrow> exn + server" where
  "set_local_id data st =
     bind_exn (py_in ''local_id'' data) (\<lambda>present.
       if present then
         bind_exn (py_item data ''local_id'') (\<lambda>v.
           Inr (st\<lparr>settings := (settings st)\<lparr>local_id := v\<rparr>\<rparr>))
       else Inr st)"

definition handle_settings ::
  "http_method \<Rightarrow> json option \<Rightarrow> server \<Rightarrow> server \<times> (exn + settings_response)" where
  "handle_settings verb body st =
     (if verb = POST then
        (let data = py_or (case body of None \<Rightarrow> JNull | Some v \<Rightarrow> v) (JObj []) in
         case set_main_session_token data st of
           Inl e \<Rightarrow> (st, Inl e)
         | Inr st1 \<Rightarrow>
             (case set_local_id data st1 of
                Inl e \<Rightarrow> (st1, Inl e)
              | Inr st2 \<Rightarrow> (st2, Inr (SettingsUpdated (settings st2)))))
      else (st, Inr (SettingsView (settings st))))"

section \<open>/api/accounts\<close>

record stats =
  successful :: nat
  failed_stat :: nat
  total_stat :: int

definition get_accounts :: "server \<Rightarrow> account list \<times> stats" where
  "get_accounts st =
     (accounts st,
      \<lparr>successful = length (filter (\<lambda>a. status a = success) (accounts st)),
       failed_stat = length (filter (\<lambda>a. status a = failed) (accounts st)),
       total_stat = generation_count (settings st)\<rparr>)"

section \<open>Outbound requests\<close>

text \<open>
  What one \<open>requests.post\<close> followed by \<open>.json()\<close> gives: the request timed
  out, it (or the decoding of the body) raised another exception with the given text,
  or the body parsed to a value.
\<close>

datatype reply = TimedOut | Failed string | Body json

text \<open>The outbound requests a handler made, in order.\<close>

datatype call =
    SignUp string
  | InitData json json
  | BalanceInit json

section \<open>/api/balance\<close>

text \<open>
  \<open>BalanceOk gems increased diff\<close> and \<open>BalanceError gems error\<close> are the two
  shapes of the JSON the handler returns.
\<close>

datatype balance_response = BalanceOk json bool int | BalanceError json string

text \<open>The two \<open>except\<close> clauses, run on the store as it is when the exception arrives.\<close>

fun balance_failed :: "exn \<Rightarrow> server \<Rightarrow> server \<times> balance_response" where
  "balance_failed Timeout st = (st, BalanceError (total_gems (settings st)) ''Request timed out'')"
| "balance_failed (Error m) st = (st, BalanceError (total_gems (settings st)) m)"

text \<open>
  Lines 181 to 188: the new value is stored first; the response dict is built after,
  and its comparison and subtraction can raise.
\<close>

definition store_gems ::
  "(json list \<Rightarrow> json list \<Rightarrow> exn + bool) \<Rightarrow> json \<Rightarrow> server \<Rightarrow> server \<times> (exn + balance_response)" where
  "store_gems list_gt new_gems st =
     (let old_gems = total_gems (settings st);
          st' = st\<lparr>settings := (settings st)\<lparr>total_gems := new_gems\<rparr>\<rparr>
      in (st',
          bind_exn (py_gt list_gt new_gems old_gems) (\<lambda>increased.
            bind_exn (if increased then py_sub new_gems old_gems else Inr 0) (\<lambda>diff.
              Inr (BalanceOk new_gems increased diff)))))"

definition balance_body ::
  "(json list \<Rightarrow> json list \<Rightarrow> exn + bool) \<Rightarrow> reply \<Rightarrow> server \<Rightarrow> server \<times> (exn + balance_response)" where
  "balance_body list_gt r st =
     (case r of
        TimedOut \<Rightarrow> (st, Inl Timeout)
      | Failed m \<Rightarrow> (st, Inl (Error m))
      | Body data \<Rightarrow>
          (case py_get data ''code'' JNull of
             Inl e \<Rightarrow> (st, Inl e)
           | Inr code \<Rightarrow>
               if py_eq_int code 1 then
                 (case py_get data ''data'' JNull of
                    Inl e \<Rightarrow> (st, Inl e)
                  | Inr d \<Rightarrow>
                      if truthy d then
                        (case py_get d ''gems'' (JInt 0) of
                           Inl e \<Rightarrow> (st, Inl e)
                         | Inr new_gems \<Rightarrow> store_gems list_gt new_gems st)
                      else (st, Inr (BalanceError (total_gems (settings st)) ''Invalid response'')))
               else (st, Inr (BalanceError (total_gems (settings st)) ''Invalid response''))))"

definition get_balance ::
  "(json list \<Rightarrow> json list \<Rightarrow> exn + bool) \<Rightarrow> reply \<Rightarrow> server
     \<Rightarrow> (server \<times> balance_response) \<times> call list" where
  "get_balance list_gt r st =
     (if \<not> truthy (main_session_token (settings st)) then
        ((st, BalanceError (JInt 0) ''No session token configured''), [])
      else
        (case balance_body list_gt r st of
           (st', Inl e) \<Rightarrow> (balance_failed e st', [BalanceInit (main_session_token (settings st))])
         | (st', Inr resp) \<Rightarrow> ((st', resp), [BalanceInit (main_session_token (settings st))])))"

section \<open>/api/generate\<close>

text \<open>
  What the world supplies to one attempt of the loop: the number drawn by
  \<open>random.randint(100000, 9999999)\<close>, the reply to the signup request, the reply to
  the initialisation request (read only when the attempt sends it), and
  \<open>datetime.now().strftime('%H:%M:%S')\<close>.
\<close>

record attempt_io =
  random_num :: nat
  signup_reply :: reply
  init_reply :: reply
  clock :: string

definition generate_random_email :: "nat \<Rightarrow> string" where
  "generate_random_email n = ''test'' @ show_nat n @ ''@example.com''"

definition password_const :: string where
  "password_const = ''testuad12334''"

definition max_attempts :: nat where
  "max_attempts = 10"

text \<open>
  \<open>GenSuccess account\<close> is \<open>{"success": True, "account": ...}\<close>;
  \<open>GenFailure error account\<close> is \<open>{"success": False, "error": ..., "account": ...}\<close>,
  with no \<open>account\<close> key when the loop fell through.
\<close>

datatype gen_response = GenSuccess account | GenFailure string "account option"

text \<open>How the body of the \<open>try\<close> ends when it does not raise.\<close>

datatype flow = Continue | Return server gen_response

text \<open>
  Lines 225 to 232 and 275 to 276, on the parsed signup body: \<open>None\<close> is the
  \<open>continue\<close> of an existing email, \<open>Some idToken\<close> a signup that gave a token.
\<close>

definition read_signup :: "(json \<Rightarrow> string) \<Rightarrow> json \<Rightarrow> exn + json option" where
  "read_signup repr signup_data =
     bind_exn (py_get signup_data ''error'' (JObj [])) (\<lambda>err.
     bind_exn (py_get err ''message'' JNull) (\<lambda>message.
       if message = JStr ''EMAIL_EXISTS'' then Inr None
       else
         bind_exn (py_get signup_data ''idToken'' JNull) (\<lambda>id_token.
           if truthy id_token then Inr (Some id_token)
           else
             bind_exn (py_get signup_data ''error'' (JObj [])) (\<lambda>err'.
             bind_exn (py_get err' ''message'' (JStr ''Signup failed'')) (\<lambda>error_msg.
               Inl (Error (py_str repr error_msg)))))))"

text \<open>Lines 252 to 273, on the reply to the initialisation request.\<close>

definition read_init :: "string \<Rightarrow> string \<Rightarrow> reply \<Rightarrow> server \<Rightarrow> exn + flow" where
  "read_init email_addr now r st =
     (case r of
        TimedOut \<Rightarrow> Inl Timeout
      | Failed m \<Rightarrow> Inl (Error m)
      | Body init_data \<Rightarrow>
          bind_exn (py_get init_data ''code'' JNull) (\<lambda>code.
            if py_eq_int code 1 then
              bind_exn (py_get init_data ''data'' JNull) (\<lambda>d.
                if truthy d then
                  bind_exn (py_get d ''session_token'' (JStr [])) (\<lambda>session_token.
                  bind_exn (py_get d ''gems'' (JInt 0)) (\<lambda>g.
                    let new_account =
                          \<lparr>email = email_addr, password = password_const,
                           sessionToken = Some session_token, gems = Some g,
                           timestamp = now, status = success, error = None\<rparr>
                    in Inr (Return
                         (st\<lparr>accounts := new_account # accounts st,
                             settings := (settings st)
                               \<lparr>generation_count := generation_count (settings st) + 1\<rparr>\<rparr>)
                         (GenSuccess new_account))))
                else Inl (Error ''Failed to initialize account''))
            else Inl (Error ''Failed to initialize account'')))"

text \<open>The body of the \<open>try\<close> of one attempt, with the outbound requests it made.\<close>

definition try_body ::
  "(json \<Rightarrow> string) \<Rightarrow> string \<Rightarrow> attempt_io \<Rightarrow> server \<Rightarrow> (exn + flow) \<times> call list" where
  "try_body repr email_addr io st =
     (case signup_reply io of
        TimedOut \<Rightarrow> (Inl Timeout, [SignUp email_addr])
      | Failed m \<Rightarrow> (Inl (Error m), [SignUp email_addr])
      | Body signup_data \<Rightarrow>
          (case read_signup repr signup_data of
             Inl e \<Rightarrow> (Inl e, [SignUp email_addr])
           | Inr None \<Rightarrow> (Inr Continue, [SignUp email_addr])
           | Inr (Some id_token) \<Rightarrow>
               (let code = py_or (local_id (settings st))
                             (case py_get signup_data ''localId'' (JStr []) of
                                Inr v \<Rightarrow> v | Inl e \<Rightarrow> JStr [])
                in (read_init email_addr (clock io) (init_reply io) st,
                    [SignUp email_addr, InitData id_token code]))))"

text \<open>
  The \<open>for\<close> loop over \<open>range(max_attempts)\<close>, as recursion over the list of the
  attempt numbers still to run.
\<close>

fun attempts ::
  "(json \<Rightarrow> string) \<Rightarrow> (nat \<Rightarrow> attempt_io) \<Rightarrow> nat list \<Rightarrow> server
     \<Rightarrow> (server \<times> gen_response) \<times> call list" where
  "attempts repr env [] st = ((st, GenFailure ''Max attempts reached'' None), [])"
| "attempts repr env (attempt # rest) st =
     (let email_addr = generate_random_email (random_num (env attempt));
          (outcome, calls) = try_body repr email_addr (env attempt) st
      in case outcome of
           Inr (Return st' resp) \<Rightarrow> ((st', resp), calls)
         | Inr Continue \<Rightarrow> apsnd ((@) calls) (attempts repr env rest st)
         | Inl Timeout \<Rightarrow> apsnd ((@) calls) (attempts repr env rest st)
         | Inl (Error m) \<Rightarrow>
             if attempt = max_attempts - 1 then
               (let failed_account =
                      \<lparr>email = email_addr, password = password_const,
                       sessionToken = None, gems = None,
                       timestamp = clock (env attempt), status = failed, error = Some m\<rparr>
                in ((st\<lparr>accounts := failed_account # accounts st\<rparr>,
                     GenFailure m (Some failed_account)), calls))
             else apsnd ((@) calls) (attempts repr env rest st))"

definition generate_account ::
  "(json \<Rightarrow> string) \<Rightarrow> (nat \<Rightarrow> attempt_io) \<Rightarrow> server \<Rightarrow> (server \<times> gen_response) \<times> call list" where
  "generate_account repr env st = attempts repr env [0..<max_attempts] st"

section \<open>The rate limiter\<close>

text \<open>
  The decorator, applied to a handler \<open>f\<close>. \<open>client_ip\<close> is
  \<open>request.remote_addr\<close> and \<open>now\<close> is \<open>time.time()\<close>, a number of seconds;
  the rounding of floating-point subtraction is not modelled. \<open>Inl\<close> is the 429
  response with its \<open>retry_after\<close>.
\<close>

datatype limited = RateLimitExceeded int

definition rate_limit ::
  "nat \<Rightarrow> int \<Rightarrow> (server \<Rightarrow> server \<times> 'r) \<Rightarrow> string \<Rightarrow> real \<Rightarrow> server \<Rightarrow> server \<times> (limited + 'r)" where
  "rate_limit max_requests window_seconds f client_ip now st =
     (let kept = (case rate_limits st client_ip of
                    Some ts \<Rightarrow> filter (\<lambda>t. now - t < real_of_int window_seconds) ts
                  | None \<Rightarrow> []);
          st1 = st\<lparr>rate_limits := (rate_limits st)(client_ip \<mapsto> kept)\<rparr>
      in if length kept \<ge> max_requests then (st1, Inl (RateLimitExceeded window_seconds))
         else
           (case f (st1\<lparr>rate_limits := (rate_limits st1)(client_ip \<mapsto> kept @ [now])\<rparr>) of
              (st2, r) \<Rightarrow> (st2, Inr r)))"

text \<open>The route: \<open>generate_account\<close> under \<open>rate_limit(max_requests=5, window_seconds=60)\<close>.\<close>

definition api_generate ::
  "(json \<Rightarrow> string) \<Rightarrow> string \<Rightarrow> real \<Rightarrow> (nat \<Rightarrow> attempt_io) \<Rightarrow> server
     \<Rightarrow> server \<times> (limited + gen_response \<times> call list)" where
  "api_generate repr client_ip now env st =
     rate_limit 5 60
       (\<lambda>s. case generate_account repr env s of ((s', resp), calls) \<Rightarrow> (s', (resp, calls)))
       client_ip now st"

section \<open>/api/export\<close>

text \<open>\<open>sep.join(xs)\<close>\<close>

fun join :: "string \<Rightarrow> string list \<Rightarrow> string" where
  "join sep [] = []"
| "join sep [x] = x"
| "join sep (x # y # ys) = x @ sep @ join sep (y # ys)"

definition newline :: char where
  "newline = CHR 0x0A"

definition account_lines :: "(json \<Rightarrow> string) \<Rightarrow> account \<Rightarrow> string list" where
  "account_lines repr acc =
     [''Email: '' @ email acc,
      ''Password: '' @ password acc,
      ''Session Token: '' @ (case sessionToken acc of None \<Rightarrow> ''N/A'' | Some v \<Rightarrow> py_str repr v),
      ''Gems: '' @ (case gems acc of None \<Rightarrow> py_str repr (JInt 0) | Some v \<Rightarrow> py_str repr v),
      ''---'']"

record export =
  content :: string
  count :: nat

definition export_accounts :: "(json \<Rightarrow> string) \<Rightarrow> server \<Rightarrow> export" where
  "export_accounts repr st =
     (let success_accounts = filter (\<lambda>a. status a = success) (accounts st)
      in \<lparr>content = join [newline] (concat (map (account_lines repr) success_accounts)),
          count = length success_accounts\<rparr>)"

section \<open>The server as a whole\<close>

text \<open>
  One request to the service, with what the world supplies while it is handled. Requests
  are handled one at a time.
\<close>

datatype request =
    ReqHealth
  | ReqSettings http_method "json option"
  | ReqAccounts
  | ReqBalance reply
  | ReqGenerate string real "nat \<Rightarrow> attempt_io"
  | ReqExport
  | ReqClear

text \<open>The store after a request.\<close>

fun handle ::
  "(json \<Rightarrow> string) \<Rightarrow> (json list \<Rightarrow> json list \<Rightarrow> exn + bool) \<Rightarrow> request \<Rightarrow> server \<Rightarrow> server" where
  "handle repr list_gt ReqHealth st = st"
| "handle repr list_gt (ReqSettings verb body) st = fst (handle_settings verb body st)"
| "handle repr list_gt ReqAccounts st = st"
| "handle repr list_gt (ReqBalance r) st = fst (fst (get_balance list_gt r st))"
| "handle repr list_gt (ReqGenerate client_ip now env) st = fst (api_generate repr client_ip now env st)"
| "handle repr list_gt ReqExport st = st"
| "handle repr list_gt ReqClear st = fst (clear_accounts st)"

fun run ::
  "(json \<Rightarrow> string) \<Rightarrow> (json list \<Rightarrow> json list \<Rightarrow> exn + bool) \<Rightarrow> request list \<Rightarrow> server \<Rightarrow> server" where
  "run repr list_gt [] st = st"
| "run repr list_gt (req # reqs) st = run repr list_gt reqs (handle repr list_gt req st)"

section \<open>Notions the properties are stated with\<close>

subsection \<open>Settings update\<close>

text \<open>The value a request body gives for a key: the body is a JSON object that has the key.\<close>

definition body_key :: "json option \<Rightarrow> string \<Rightarrow> json option" where
  "body_key body key = (case body of Some (JObj kvs) \<Rightarrow> map_of kvs key | _ \<Rightarrow> None)"

text \<open>The store with the two configurable fields taken from the body where it has them.\<close>

definition merged :: "json option \<Rightarrow> server \<Rightarrow> server" where
  "merged body st =
     st\<lparr>settings := (settings st)
        \<lparr>main_session_token :=
           (case body_key body ''main_session_token'' of
              Some v \<Rightarrow> v | None \<Rightarrow> main_session_token (settings st)),
         local_id :=
           (case body_key body ''local_id'' of
              Some v \<Rightarrow> v | None \<Rightarrow> local_id (settings st))\<rparr>\<rparr>"

subsection \<open>Attempts of the generation loop\<close>

text \<open>The identity provider reports that the email exists.\<close>

fun reports_email_exists :: "reply \<Rightarrow> bool" where
  "reports_email_exists (Body (JObj kvs)) =
     (case map_of kvs ''error'' of
        Some (JObj err) \<Rightarrow> map_of err ''message'' = Some (JStr ''EMAIL_EXISTS'')
      | _ \<Rightarrow> False)"
| "reports_email_exists r = False"

text \<open>
  Signup succeeds: the reply is an object with a non-empty \<open>idToken\<close> whose
  \<open>error\<close> member, if any, is an object that does not report an existing email.
\<close>

fun granted_token :: "reply \<Rightarrow> json option" where
  "granted_token (Body (JObj kvs)) =
     (let id_token = (case map_of kvs ''idToken'' of
                        Some t \<Rightarrow> if truthy t then Some t else None
                      | None \<Rightarrow> None)
      in case map_of kvs ''error'' of
           None \<Rightarrow> id_token
         | Some (JObj err) \<Rightarrow>
             if map_of err ''message'' = Some (JStr ''EMAIL_EXISTS'') then None else id_token
         | Some v \<Rightarrow> None)"
| "granted_token r = None"

text \<open>
  The exchange succeeds: the reply is an object with \<open>code\<close> 1 and a non-empty object
  \<open>data\<close>. The result is the session token and the balance it carries.
\<close>

fun exchanged :: "reply \<Rightarrow> (json \<times> json) option" where
  "exchanged (Body (JObj kvs)) =
     (case (map_of kvs ''code'', map_of kvs ''data'') of
        (Some c, Some (JObj d)) \<Rightarrow>
          if py_eq_int c 1 \<and> d \<noteq> [] then
            Some (case map_of d ''session_token'' of None \<Rightarrow> JStr [] | Some v \<Rightarrow> v,
                  case map_of d ''gems'' of None \<Rightarrow> JInt 0 | Some v \<Rightarrow> v)
          else None
      | _ \<Rightarrow> None)"
| "exchanged r = None"

definition attempt_succeeds :: "attempt_io \<Rightarrow> bool" where
  "attempt_succeeds io =
     (granted_token (signup_reply io) \<noteq> None \<and> exchanged (init_reply io) \<noteq> None)"

text \<open>The signup request of attempt \<open>i\<close>, and the signup requests among a handler's calls.\<close>

definition signup_of :: "(nat \<Rightarrow> attempt_io) \<Rightarrow> nat \<Rightarrow> call" where
  "signup_of env i = SignUp (generate_random_email (random_num (env i)))"

fun is_signup :: "call \<Rightarrow> bool" where
  "is_signup (SignUp e) = True"
| "is_signup c = False"

text \<open>
  The number of attempts a generation takes: up to and including the first attempt
  that succeeds, all of them when none does.
\<close>

definition attempts_used :: "(nat \<Rightarrow> attempt_io) \<Rightarrow> nat" where
  "attempts_used env =
     (case List.find (\<lambda>i. attempt_succeeds (env i)) [0..<max_attempts] of
        Some k \<Rightarrow> Suc k
      | None \<Rightarrow> max_attempts)"

text \<open>The record of a successful attempt, and the store with it at the head.\<close>

definition new_account :: "string \<Rightarrow> string \<Rightarrow> json \<Rightarrow> json \<Rightarrow> account" where
  "new_account e now s g =
     \<lparr>email = e, password = password_const, sessionToken = Some s, gems = Some g,
      timestamp = now, status = success, error = None\<rparr>"

definition record_success :: "account \<Rightarrow> server \<Rightarrow> server" where
  "record_success a st =
     st\<lparr>accounts := a # accounts st,
        settings := (settings st)\<lparr>generation_count := generation_count (settings st) + 1\<rparr>\<rparr>"

text \<open>
  The continuation identifier sent with the exchange: the configured \<open>local_id\<close>, or
  the \<open>localId\<close> of the signup reply when none is configured.
\<close>

definition code_of :: "server \<Rightarrow> reply \<Rightarrow> json" where
  "code_of st r =
     py_or (local_id (settings st))
       (case r of
          Body (JObj kvs) \<Rightarrow> (case map_of kvs ''localId'' of None \<Rightarrow> JStr [] | Some v \<Rightarrow> v)
        | _ \<Rightarrow> JStr [])"

text \<open>The outbound requests of attempt \<open>i\<close>.\<close>

definition calls_of :: "(json \<Rightarrow> string) \<Rightarrow> (nat \<Rightarrow> attempt_io) \<Rightarrow> server \<Rightarrow> nat \<Rightarrow> call list" where
  "calls_of repr env st i =
     snd (try_body repr (generate_random_email (random_num (env i))) (env i) st)"

subsection \<open>The generation counter\<close>

text \<open>
  The number of \<open>success\<close> records in the account sequence, and the invariant: the
  counter equals it. Records enter the sequence at its head and leave it only when it is
  cleared, so the sequence holds the records created since the last clear.
\<close>

definition successes :: "server \<Rightarrow> nat" where
  "successes st = length (filter (\<lambda>a. status a = success) (accounts st))"

definition count_consistent :: "server \<Rightarrow> bool" where
  "count_consistent st = (generation_count (settings st) = int (successes st))"

text \<open>
  The number of generations that returned success since the last clear, over a run of
  requests from a store whose count so far is \<open>n\<close>.
\<close>

fun created_since_clear ::
  "(json \<Rightarrow> string) \<Rightarrow> (json list \<Rightarrow> json list \<Rightarrow> exn + bool) \<Rightarrow> request list \<Rightarrow> server \<Rightarrow> nat \<Rightarrow> nat" where
  "created_since_clear repr list_gt [] st n = n"
| "created_since_clear repr list_gt (req # reqs) st n =
     created_since_clear repr list_gt reqs (handle repr list_gt req st)
       (case req of
          ReqClear \<Rightarrow> 0
        | ReqGenerate client_ip now env \<Rightarrow>
            (case snd (api_generate repr client_ip now env st) of
               Inr (GenSuccess a, calls) \<Rightarrow> Suc n
             | _ \<Rightarrow> n)
        | _ \<Rightarrow> n)"

subsection \<open>Balance polls\<close>

text \<open>
  A well-formed success reply carrying the gems value \<open>g\<close>: an object with \<open>code\<close>
  1 whose \<open>data\<close> is an object with an integer \<open>gems\<close>.
\<close>

fun carries_gems :: "reply \<Rightarrow> int option" where
  "carries_gems (Body (JObj kvs)) =
     (case (map_of kvs ''code'', map_of kvs ''data'') of
        (Some (JInt c), Some (JObj d)) \<Rightarrow>
          if c = 1 then (case map_of d ''gems'' of Some (JInt g) \<Rightarrow> Some g | _ \<Rightarrow> None)
          else None
      | _ \<Rightarrow> None)"
| "carries_gems r = None"

definition set_total_gems :: "json \<Rightarrow> server \<Rightarrow> server" where
  "set_total_gems g st = st\<lparr>settings := (settings st)\<lparr>total_gems := g\<rparr>\<rparr>"

subsection \<open>Export\<close>

text \<open>
  The lines of a text (\<open>text.split(sep)\<close> for a one-character separator), and those
  of them that start with \<open>Email:\<close>.
\<close>

fun split_on :: "char \<Rightarrow> string \<Rightarrow> string list" where
  "split_on c [] = [[]]"
| "split_on c (x # xs) =
     (if x = c then [] # split_on c xs
      else (case split_on c xs of l # ls \<Rightarrow> (x # l) # ls | [] \<Rightarrow> [[x]]))"

definition email_lines :: "string \<Rightarrow> string list" where
  "email_lines txt = filter (prefix ''Email:'') (split_on newline txt)"

text \<open>None of the four fields the export writes for a record has a line feed in its text.\<close>

definition single_line_fields :: "(json \<Rightarrow> string) \<Rightarrow> account \<Rightarrow> bool" where
  "single_line_fields repr a =
     (newline \<notin> set (email a) \<and> newline \<notin> set (password a)
      \<and> newline \<notin> set (case sessionToken a of None \<Rightarrow> ''N/A'' | Some v \<Rightarrow> py_str repr v)
      \<and> newline \<notin> set (case gems a of None \<Rightarrow> py_str repr (JInt 0) | Some v \<Rightarrow> py_str repr v))"

subsection \<open>The rate-limit ledger\<close>

text \<open>
  The timestamps the ledger holds for a client, the test the limiter applies to one of
  them at time \<open>now\<close> (it lies within the trailing 60-second window), and the store
  with the client's entry pruned to the window.
\<close>

definition ledger :: "server \<Rightarrow> string \<Rightarrow> real list" where
  "ledger st c = (case rate_limits st c of Some ts \<Rightarrow> ts | None \<Rightarrow> [])"

definition in_window :: "real \<Rightarrow> real \<Rightarrow> bool" where
  "in_window now t = (now - t < 60)"

definition prune :: "string \<Rightarrow> real \<Rightarrow> server \<Rightarrow> server" where
  "prune c now st = st\<lparr>rate_limits := (rate_limits st)(c \<mapsto> filter (in_window now) (ledger st c))\<rparr>"

text \<open>
  Over a run of requests: the times of the generate requests of client \<open>c\<close>, and the
  times of those the limiter let through, which are the ones whose timestamp it appended
  to the ledger.
\<close>

fun generate_times :: "string \<Rightarrow> request list \<Rightarrow> real list" where
  "generate_times c [] = []"
| "generate_times c (ReqGenerate client_ip t env # reqs) =
     (if client_ip = c then t # generate_times c reqs else generate_times c reqs)"
| "generate_times c (req # reqs) = generate_times c reqs"

fun admitted_times ::
  "(json \<Rightarrow> string) \<Rightarrow> (json list \<Rightarrow> json list \<Rightarrow> exn + bool) \<Rightarrow> string \<Rightarrow> request list \<Rightarrow> server
     \<Rightarrow> real list" where
  "admitted_times repr list_gt c [] st = []"
| "admitted_times repr list_gt c (req # reqs) st =
     (case req of
        ReqGenerate client_ip t env \<Rightarrow>
          if client_ip = c \<and> \<not> isl (snd (api_generate repr client_ip t env st)) then [t] else []
      | _ \<Rightarrow> [])
     @ admitted_times repr list_gt c reqs (handle repr list_gt req st)"

subsection \<open>Example inputs\<close>

definition no_repr :: "json \<Rightarrow> string" where
  "no_repr v = []"

definition no_list_gt :: "json list \<Rightarrow> json list \<Rightarrow> exn + bool" where
  "no_list_gt a b = Inr False"

definition collision_reply :: reply where
  "collision_reply = Body (JObj [(''error'', JObj [(''code'', JInt 400), (''message'', JStr ''EMAIL_EXISTS'')])])"

definition token_reply :: reply where
  "token_reply = Body (JObj [(''idToken'', JStr ''tok''), (''localId'', JStr ''uid'')])"

definition session_reply :: reply where
  "session_reply =
     Body (JObj [(''code'', JInt 1), (''data'', JObj [(''session_token'', JStr ''sess''), (''gems'', JInt 5)])])"

definition env_collisions :: "nat \<Rightarrow> attempt_io" where
  "env_collisions i =
     \<lparr>random_num = 100000 + i, signup_reply = collision_reply, init_reply = TimedOut,
      clock = ''12:00:00''\<rparr>"

definition env_third :: "nat \<Rightarrow> attempt_io" where
  "env_third i =
     \<lparr>random_num = 100000 + i,
      signup_reply = (if i = 0 then collision_reply else if i = 1 then TimedOut else token_reply),
      init_reply = session_reply,
      clock = ''12:00:00''\<rparr>"

definition env_failing :: "nat \<Rightarrow> attempt_io" where
  "env_failing i =
     \<lparr>random_num = 100000 + i, signup_reply = Failed ''connection refused'',
      init_reply = TimedOut, clock = ''12:00:00''\<rparr>"

definition failing_record :: account where
  "failing_record =
     \<lparr>email = generate_random_email 100009, password = password_const,
      sessionToken = None, gems = None, timestamp = ''12:00:00'', status = failed,
      error = Some ''connection refused''\<rparr>"

definition configured :: server where
  "configured = initial\<lparr>settings := (settings initial)\<lparr>main_session_token := JStr ''main''\<rparr>\<rparr>"

definition null_gems_reply :: reply where
  "null_gems_reply = Body (JObj [(''code'', JInt 1), (''data'', JObj [(''gems'', JNull)])])"

definition null_then_five :: "request list" where
  "null_then_five =
     [ReqSettings POST (Some (JObj [(''main_session_token'', JStr ''main'')])),
      ReqBalance null_gems_reply]"

definition injected :: server where
  "injected =
     initial\<lparr>accounts :=
       [\<lparr>email = ''test100000@example.com'', password = password_const,
         sessionToken = Some (JStr (''x'' @ [newline] @ ''Email: y'')), gems = Some (JInt 5),
         timestamp = ''12:00:00'', status = success, error = None\<rparr>]\<rparr>"

definition mixed :: server where
  "mixed =
     initial\<lparr>accounts :=
       [failing_record,
        \<lparr>email = ''test100000@example.com'', password = password_const,
         sessionToken = Some (JStr ''sess''), gems = Some (JInt 5),
         timestamp = ''12:00:00'', status = success, error = None\<rparr>]\<rparr>"

definition env_first :: "nat \<Rightarrow> attempt_io" where
  "env_first i =
     \<lparr>random_num = 100000 + i, signup_reply = token_reply, init_reply = session_reply,
      clock = ''12:00:00''\<rparr>"

definition five_calls :: "request list" where
  "five_calls = map (\<lambda>t. ReqGenerate ''10.0.0.1'' t env_first) [0, 1, 2, 3, 4]"


section \<open>Properties\<close>

subsection \<open>Clearing\<close>

text \<open>
  C4. From any state, clear leaves the account sequence empty and \<open>generation_count\<close>
  0; a second clear gives the same state as the first, and both return the same success
  result.
\<close>

theorem clear_accounts_idempotent:
  "accounts (fst (clear_accounts st)) = []
   \<and> generation_count (settings (fst (clear_accounts st))) = 0
   \<and> fst (clear_accounts (fst (clear_accounts st))) = fst (clear_accounts st)
   \<and> snd (clear_accounts (fst (clear_accounts st))) = snd (clear_accounts st)
   \<and> snd (clear_accounts st) = Cleared"
  by (simp add: clear_accounts_def)

subsection \<open>The generation loop\<close>

lemma read_signup_iff:
  "read_signup repr sd = Inr (Some tok) \<longleftrightarrow> granted_token (Body sd) = Some tok"
  by (cases sd)
     (auto simp: read_signup_def bind_exn_def Let_def split: option.splits json.splits if_splits)

lemma read_signup_email_exists:
  "reports_email_exists (Body sd) \<Longrightarrow> read_signup repr sd = Inr None"
  by (cases sd)
     (auto simp: read_signup_def bind_exn_def split: option.splits json.splits if_splits)

lemma read_init_exchanged:
  "exchanged r = Some (s, g) \<Longrightarrow>
     read_init e now r st
       = Inr (Return (record_success (new_account e now s g) st) (GenSuccess (new_account e now s g)))"
  apply (cases r; simp)
  subgoal for d
    by (cases d)
       (auto simp: read_init_def bind_exn_def new_account_def record_success_def Let_def
             split: option.splits json.splits if_splits)
  done

lemma read_init_not_exchanged:
  "exchanged r = None \<Longrightarrow> \<exists>e'. read_init e now r st = Inl e'"
  apply (cases r; simp add: read_init_def)
  subgoal for d
    by (cases d)
       (auto simp: bind_exn_def py_eq_int_def split: option.splits json.splits if_splits)
  done

lemma granted_token_Body:
  "granted_token r = Some tok \<Longrightarrow> \<exists>kvs. r = Body (JObj kvs)"
  by (cases r rule: granted_token.cases) auto

lemma try_body_success:
  assumes "granted_token (signup_reply io) = Some tok"
    and "exchanged (init_reply io) = Some (s, g)"
  shows "try_body repr e io st =
           (Inr (Return (record_success (new_account e (clock io) s g) st)
                   (GenSuccess (new_account e (clock io) s g))),
            [SignUp e, InitData tok (code_of st (signup_reply io))])"
proof -
  obtain kvs where r: "signup_reply io = Body (JObj kvs)"
    using granted_token_Body[OF assms(1)] by blast
  have "read_signup repr (JObj kvs) = Inr (Some tok)"
    using assms(1) r by (simp add: read_signup_iff del: granted_token.simps)
  then show ?thesis
    using r read_init_exchanged[OF assms(2)]
    by (simp add: try_body_def code_of_def split: option.splits)
qed

lemma try_body_no_success:
  assumes "\<not> attempt_succeeds io"
  shows "fst (try_body repr e io st) = Inr Continue \<or> (\<exists>x. fst (try_body repr e io st) = Inl x)"
proof (cases "signup_reply io")
  case (Body sd)
  show ?thesis
  proof (cases "read_signup repr sd")
    case (Inr t)
    show ?thesis
    proof (cases t)
      case None
      then show ?thesis using Body Inr by (simp add: try_body_def)
    next
      case (Some tok)
      then have "granted_token (signup_reply io) = Some tok"
        using Body Inr read_signup_iff[of repr sd tok] by simp
      then have "exchanged (init_reply io) = None"
        using assms by (cases "exchanged (init_reply io)") (auto simp: attempt_succeeds_def)
      from read_init_not_exchanged[OF this]
      show ?thesis using Body Inr Some by (auto simp: try_body_def)
    qed
  qed (simp add: try_body_def Body)
qed (simp_all add: try_body_def)

lemma try_body_signup_calls:
  "filter is_signup (snd (try_body repr e io st)) = [SignUp e]"
  by (auto simp: try_body_def split: reply.splits sum.splits option.splits)

lemma try_body_email_exists:
  "reports_email_exists (signup_reply io) \<Longrightarrow> try_body repr e io st = (Inr Continue, [SignUp e])"
proof (cases "signup_reply io")
  case (Body sd)
  assume "reports_email_exists (signup_reply io)"
  then have "read_signup repr sd = Inr None"
    using Body read_signup_email_exists by simp
  then show ?thesis using Body by (simp add: try_body_def)
qed simp_all

lemma calls_of_signup: "filter is_signup (calls_of repr env st i) = [signup_of env i]"
  by (simp add: calls_of_def try_body_signup_calls signup_of_def)

lemma apsnd_append: "apsnd ((@) a) (apsnd ((@) b) p) = apsnd ((@) (a @ b)) p"
  by (cases p) simp

lemma attempts_continue:
  assumes "\<not> attempt_succeeds (env i)" and "i \<noteq> max_attempts - 1"
  shows "attempts repr env (i # rest) st
           = apsnd ((@) (calls_of repr env st i)) (attempts repr env rest st)"
proof -
  let ?e = "generate_random_email (random_num (env i))"
  obtain outcome calls where tb: "try_body repr ?e (env i) st = (outcome, calls)"
    by (cases "try_body repr ?e (env i) st")
  have c: "calls_of repr env st i = calls" by (simp add: calls_of_def tb)
  from try_body_no_success[OF assms(1), of repr ?e st]
  have "outcome = Inr Continue \<or> (\<exists>x. outcome = Inl x)" by (simp add: tb)
  then show ?thesis
  proof
    assume "outcome = Inr Continue"
    then show ?thesis by (simp add: tb c)
  next
    assume "\<exists>x. outcome = Inl x"
    then obtain x where "outcome = Inl x" by blast
    then show ?thesis using assms(2) by (cases x) (simp_all add: tb c)
  qed
qed

lemma attempts_skip:
  assumes "\<forall>i\<in>set xs. \<not> attempt_succeeds (env i) \<and> i \<noteq> max_attempts - 1"
  shows "attempts repr env (xs @ ys) st
           = apsnd ((@) (concat (map (calls_of repr env st) xs))) (attempts repr env ys st)"
  using assms
proof (induction xs)
  case Nil
  then show ?case by (cases "attempts repr env ys st") simp
next
  case (Cons x xs)
  then have "attempts repr env (x # (xs @ ys)) st
      = apsnd ((@) (calls_of repr env st x)) (attempts repr env (xs @ ys) st)"
    by (intro attempts_continue) simp_all
  then show ?case using Cons by (simp add: apsnd_append)
qed

lemma filter_signup_concat:
  "filter is_signup (concat (map (calls_of repr env st) xs)) = map (signup_of env) xs"
  by (induction xs) (simp_all add: calls_of_signup)

lemma attempts_succeed:
  assumes "granted_token (signup_reply (env k)) = Some tok"
    and "exchanged (init_reply (env k)) = Some (s, g)"
  shows "attempts repr env (k # rest) st =
           ((record_success (new_account (generate_random_email (random_num (env k))) (clock (env k)) s g) st,
             GenSuccess (new_account (generate_random_email (random_num (env k))) (clock (env k)) s g)),
            calls_of repr env st k)"
  using try_body_success[OF assms, of repr "generate_random_email (random_num (env k))" st]
  by (simp add: calls_of_def Let_def)

lemma attempts_last:
  assumes "\<not> attempt_succeeds (env i)"
  shows "snd (attempts repr env [i] st) = calls_of repr env st i"
proof -
  let ?e = "generate_random_email (random_num (env i))"
  obtain outcome calls where tb: "try_body repr ?e (env i) st = (outcome, calls)"
    by (cases "try_body repr ?e (env i) st")
  have c: "calls_of repr env st i = calls" by (simp add: calls_of_def tb)
  from try_body_no_success[OF assms(1), of repr ?e st]
  have "outcome = Inr Continue \<or> (\<exists>x. outcome = Inl x)" by (simp add: tb)
  then show ?thesis
  proof
    assume "outcome = Inr Continue"
    then show ?thesis by (simp add: tb c)
  next
    assume "\<exists>x. outcome = Inl x"
    then obtain x where "outcome = Inl x" by blast
    then show ?thesis by (cases x) (simp_all add: tb c Let_def)
  qed
qed

lemma upt_split: "k < n \<Longrightarrow> [0..<n] = [0..<k] @ k # [Suc k..<n]"
  by (metis upt_conv_Cons upt_add_eq_append le0 le_add_diff_inverse less_imp_le)

lemma generate_first_success:
  assumes "k < max_attempts"
    and "granted_token (signup_reply (env k)) = Some tok"
    and "exchanged (init_reply (env k)) = Some (s, g)"
    and "\<forall>j<k. \<not> attempt_succeeds (env j)"
  shows "generate_account repr env st =
           ((record_success (new_account (generate_random_email (random_num (env k))) (clock (env k)) s g) st,
             GenSuccess (new_account (generate_random_email (random_num (env k))) (clock (env k)) s g)),
            concat (map (calls_of repr env st) [0..<Suc k]))"
proof -
  have "\<forall>i\<in>set [0..<k]. \<not> attempt_succeeds (env i) \<and> i \<noteq> max_attempts - 1"
    using assms(1,4) by auto
  from attempts_skip[OF this, of repr "k # [Suc k..<max_attempts]" st]
  have "attempts repr env ([0..<k] @ k # [Suc k..<max_attempts]) st =
          ((record_success (new_account (generate_random_email (random_num (env k))) (clock (env k)) s g) st,
            GenSuccess (new_account (generate_random_email (random_num (env k))) (clock (env k)) s g)),
           concat (map (calls_of repr env st) [0..<k]) @ calls_of repr env st k)"
    by (simp add: attempts_succeed[where env = env and k = k, OF assms(2,3)]
          del: attempts.simps)
  moreover have "generate_account repr env st
      = attempts repr env ([0..<k] @ k # [Suc k..<max_attempts]) st"
    using upt_split[OF assms(1)] by (simp add: generate_account_def)
  ultimately show ?thesis by simp
qed

lemma find_upt_Some:
  "List.find P [0..<n] = Some k \<Longrightarrow> k < n \<and> P k \<and> (\<forall>j<k. \<not> P j)"
  by (auto simp: find_Some_iff)

text \<open>
  C1. When the identity provider reports an existing email on every one of the 10
  attempts, generation returns the failure "Max attempts reached" with no account, the
  store is unchanged (no record, of either status, enters the account sequence), and the
  requests made are the 10 signups.
\<close>

theorem generate_account_email_exists:
  assumes "\<forall>i<max_attempts. reports_email_exists (signup_reply (env i))"
  shows "generate_account repr env st =
           ((st, GenFailure ''Max attempts reached'' None), map (signup_of env) [0..<max_attempts])"
proof -
  have "\<forall>i\<in>set xs. reports_email_exists (signup_reply (env i)) \<Longrightarrow>
        attempts repr env xs st = ((st, GenFailure ''Max attempts reached'' None), map (signup_of env) xs)" for xs
    by (induction xs) (simp_all add: try_body_email_exists signup_of_def)
  then show ?thesis using assms by (simp add: generate_account_def)
qed

theorem generate_account_email_exists_witness:
  "generate_account no_repr env_collisions initial =
     ((initial, GenFailure ''Max attempts reached'' None),
      map (signup_of env_collisions) [0..<max_attempts])"
  using generate_account_email_exists[of env_collisions no_repr initial]
  by (simp add: env_collisions_def collision_reply_def)

text \<open>
  C2. When attempt \<open>k\<close> (counted from 0, so attempt \<open>k + 1\<close> of the 10) is the first
  on which signup and exchange both succeed, generation returns success with the new
  record, the account sequence is the old one with exactly that \<open>success\<close> record at
  its head, \<open>generation_count\<close> has grown by exactly 1, and the signups made are those
  of attempts 0 to \<open>k\<close>: no attempt follows the successful one.
\<close>

theorem generate_account_success:
  assumes "k < max_attempts"
    and "granted_token (signup_reply (env k)) = Some tok"
    and "exchanged (init_reply (env k)) = Some (s, g)"
    and "\<forall>j<k. \<not> attempt_succeeds (env j)"
  shows "let a = new_account (generate_random_email (random_num (env k))) (clock (env k)) s g;
             ((st', resp), calls) = generate_account repr env st
         in resp = GenSuccess a \<and> status a = success
            \<and> accounts st' = a # accounts st
            \<and> generation_count (settings st') = generation_count (settings st) + 1
            \<and> st' = record_success a st
            \<and> filter is_signup calls = map (signup_of env) [0..<Suc k]"
  unfolding generate_first_success[OF assms]
  by (simp add: Let_def filter_signup_concat record_success_def new_account_def del: upt_Suc)

theorem generate_account_success_witness:
  "(let a = new_account (generate_random_email (random_num (env_third 2))) (clock (env_third 2))
              (JStr ''sess'') (JInt 5);
        ((st', resp), calls) = generate_account no_repr env_third initial
    in resp = GenSuccess a \<and> status a = success
       \<and> accounts st' = a # accounts initial
       \<and> generation_count (settings st') = generation_count (settings initial) + 1
       \<and> st' = record_success a initial
       \<and> filter is_signup calls = map (signup_of env_third) [0..<Suc 2])"
proof -
  have 1: "(2::nat) < max_attempts" by (simp add: max_attempts_def)
  have 2: "granted_token (signup_reply (env_third 2)) = Some (JStr ''tok'')"
    by (simp add: env_third_def token_reply_def)
  have 3: "exchanged (init_reply (env_third 2)) = Some (JStr ''sess'', JInt 5)"
    by (simp add: env_third_def session_reply_def py_eq_int_def)
  have 4: "\<forall>j<2. \<not> attempt_succeeds (env_third j)"
    by (auto simp: env_third_def attempt_succeeds_def collision_reply_def less_Suc_eq numeral_2_eq_2)
  show ?thesis using generate_account_success[OF 1 2 3 4, of no_repr initial] .
qed

lemma attempts_made:
  "filter is_signup (snd (generate_account repr env st)) = map (signup_of env) [0..<attempts_used env]
   \<and> 1 \<le> attempts_used env \<and> attempts_used env \<le> max_attempts
   \<and> ((\<exists>a. snd (fst (generate_account repr env st)) = GenSuccess a)
        \<or> attempts_used env = max_attempts)"
proof (cases "List.find (\<lambda>i. attempt_succeeds (env i)) [0..<max_attempts]")
  case None
  then have no: "\<forall>i<max_attempts. \<not> attempt_succeeds (env i)"
    by (auto simp: find_None_iff)
  have u: "attempts_used env = max_attempts" by (simp add: attempts_used_def None)
  have sp: "[0..<max_attempts] = [0..<9] @ [9]"
    using upt_split[of 9 max_attempts] by (simp add: max_attempts_def)
  have "\<forall>i\<in>set [0..<9]. \<not> attempt_succeeds (env i) \<and> i \<noteq> max_attempts - 1"
    using no by (auto simp: max_attempts_def)
  from attempts_skip[OF this, of repr "[9]" st]
  have "snd (generate_account repr env st)
      = concat (map (calls_of repr env st) [0..<9]) @ calls_of repr env st 9"
    using attempts_last[of env 9 repr st] no
    unfolding generate_account_def sp
    by (simp add: max_attempts_def del: attempts.simps upt_Suc)
  then have "filter is_signup (snd (generate_account repr env st))
      = map (signup_of env) ([0..<9] @ [9])"
    by (simp add: filter_signup_concat calls_of_signup del: upt_Suc)
  then show ?thesis
    unfolding u sp by (simp add: max_attempts_def)
next
  case (Some k)
  from find_upt_Some[OF this]
  have k: "k < max_attempts" "attempt_succeeds (env k)" "\<forall>j<k. \<not> attempt_succeeds (env j)"
    by auto
  then obtain tok s g where
    "granted_token (signup_reply (env k)) = Some tok" "exchanged (init_reply (env k)) = Some (s, g)"
    by (auto simp: attempt_succeeds_def)
  from generate_first_success[OF k(1) this k(3), of repr st]
  show ?thesis using k(1)
    by (simp add: attempts_used_def Some filter_signup_concat del: upt_Suc)
qed

text \<open>
  C9. Every generation makes its signups for attempts 0, 1, ... in order, one per
  attempt, up to and including the first attempt that succeeds, or for all 10 attempts
  when none succeeds: an attempt that ends in an existing email, a timeout or any other
  failure uses up exactly one of the 10. The number of attempts is at least 1 and at
  most 10, and a generation that does not return success has made all 10. (The loop is
  a recursion over the 10 attempt numbers, so it ends.)
\<close>

theorem generate_account_attempts:
  "filter is_signup (snd (generate_account repr env st)) = map (signup_of env) [0..<attempts_used env]
   \<and> 1 \<le> attempts_used env \<and> attempts_used env \<le> 10
   \<and> ((\<exists>a. snd (fst (generate_account repr env st)) = GenSuccess a)
        \<or> attempts_used env = 10)"
  using attempts_made[of repr env st] by (simp add: max_attempts_def)


subsection \<open>Settings update\<close>

lemma set_main_session_token_obj:
  "set_main_session_token (JObj kvs) st =
     Inr (case map_of kvs ''main_session_token'' of
            None \<Rightarrow> st
          | Some v \<Rightarrow> st\<lparr>settings := (settings st)\<lparr>main_session_token := v\<rparr>\<rparr>)"
  by (auto simp: set_main_session_token_def bind_exn_def split: option.splits)

lemma set_main_session_token_other:
  "(\<And>kvs. data \<noteq> JObj kvs) \<Longrightarrow> set_main_session_token data st = Inr st' \<Longrightarrow> st' = st"
  by (cases data) (auto simp: set_main_session_token_def bind_exn_def split: if_splits)

lemma set_local_id_obj:
  "set_local_id (JObj kvs) st =
     Inr (case map_of kvs ''local_id'' of
            None \<Rightarrow> st
          | Some v \<Rightarrow> st\<lparr>settings := (settings st)\<lparr>local_id := v\<rparr>\<rparr>)"
  by (auto simp: set_local_id_def bind_exn_def split: option.splits)

lemma set_local_id_other:
  "(\<And>kvs. data \<noteq> JObj kvs) \<Longrightarrow> set_local_id data st = Inr st' \<Longrightarrow> st' = st"
  by (cases data) (auto simp: set_local_id_def bind_exn_def split: if_splits)

lemma handle_settings_post_state:
  "fst (handle_settings POST body st) = merged body st"
proof (cases "\<exists>kvs. body = Some (JObj kvs)")
  case True
  then obtain kvs where b: "body = Some (JObj kvs)" by blast
  show ?thesis
    by (cases kvs)
       (auto simp: b handle_settings_def merged_def body_key_def py_or_def
          set_main_session_token_obj set_local_id_obj split: option.splits)
next
  case False
  then have nk: "body_key body k = None" for k
    by (cases body) (auto simp: body_key_def split: json.splits)
  define data where "data = py_or (case body of None \<Rightarrow> JNull | Some v \<Rightarrow> v) (JObj [])"
  have "data = JObj [] \<or> (\<forall>kvs. data \<noteq> JObj kvs)"
    using False by (cases body) (auto simp: data_def py_or_def)
  then show ?thesis
  proof
    assume "data = JObj []"
    then show ?thesis
      using nk by (simp add: handle_settings_def merged_def data_def[symmetric]
          set_main_session_token_obj set_local_id_obj)
  next
    assume nd: "\<forall>kvs. data \<noteq> JObj kvs"
    have m: "merged body st = st" using nk by (simp add: merged_def)
    show ?thesis
      using set_main_session_token_other[of data st] set_local_id_other[of data] nd
      by (auto simp: handle_settings_def m data_def[symmetric] split: sum.splits)
  qed
qed

text \<open>
  C10. A settings request changes the store in two fields at most:
  \<open>main_session_token\<close> and \<open>local_id\<close>, each set to the value the request body
  gives for that key when the body is an object that has the key, and left as it was
  otherwise (a GET changes nothing). Whatever the body is, also when it has
  \<open>total_gems\<close> or \<open>generation_count\<close> keys, \<open>total_gems\<close> and
  \<open>generation_count\<close> are as before, and so are the account sequence and the
  rate-limit ledger.
\<close>

theorem handle_settings_frame:
  "fst (handle_settings verb body st) = (if verb = POST then merged body st else st)
   \<and> total_gems (settings (fst (handle_settings verb body st))) = total_gems (settings st)
   \<and> generation_count (settings (fst (handle_settings verb body st)))
       = generation_count (settings st)
   \<and> accounts (fst (handle_settings verb body st)) = accounts st
   \<and> rate_limits (fst (handle_settings verb body st)) = rate_limits st"
proof (cases verb)
  case GET
  then show ?thesis by (simp add: handle_settings_def)
next
  case POST
  then show ?thesis by (simp add: handle_settings_post_state merged_def)
qed

subsection \<open>The generation counter\<close>

lemma attempts_cases:
  obtains (exhausted) cs where
      "attempts repr env xs st = ((st, GenFailure ''Max attempts reached'' None), cs)"
  | (succeeded) cs a where "status a = success"
      "attempts repr env xs st = ((record_success a st, GenSuccess a), cs)"
  | (gave_up) cs a m where "status a = failed"
      "attempts repr env xs st = ((st\<lparr>accounts := a # accounts st\<rparr>, GenFailure m (Some a)), cs)"
proof -
  have "(\<exists>cs. attempts repr env xs st = ((st, GenFailure ''Max attempts reached'' None), cs))
      \<or> (\<exists>cs a. status a = success
            \<and> attempts repr env xs st = ((record_success a st, GenSuccess a), cs))
      \<or> (\<exists>cs a m. status a = failed
            \<and> attempts repr env xs st
                = ((st\<lparr>accounts := a # accounts st\<rparr>, GenFailure m (Some a)), cs))"
  proof (induction xs)
    case Nil
    then show ?case by simp
  next
    case (Cons i xs)
    let ?e = "generate_random_email (random_num (env i))"
    show ?case
    proof (cases "attempt_succeeds (env i)")
      case True
      then obtain tok s g where
        "granted_token (signup_reply (env i)) = Some tok"
        "exchanged (init_reply (env i)) = Some (s, g)"
        by (auto simp: attempt_succeeds_def)
      from attempts_succeed[where env = env and k = i, OF this, of repr xs st]
      show ?thesis by (auto simp: new_account_def)
    next
      case False
      obtain outcome calls where tb: "try_body repr ?e (env i) st = (outcome, calls)"
        by (cases "try_body repr ?e (env i) st")
      from try_body_no_success[OF False, of repr ?e st]
      have "outcome = Inr Continue \<or> outcome = Inl Timeout \<or> (\<exists>m. outcome = Inl (Error m))"
        using tb by (metis exn.exhaust fst_conv)
      then show ?thesis
      proof (elim disjE exE)
        assume "outcome = Inr Continue"
        then have "attempts repr env (i # xs) st = apsnd ((@) calls) (attempts repr env xs st)"
          by (simp add: tb)
        then show ?thesis using Cons.IH by auto
      next
        assume "outcome = Inl Timeout"
        then have "attempts repr env (i # xs) st = apsnd ((@) calls) (attempts repr env xs st)"
          by (simp add: tb)
        then show ?thesis using Cons.IH by auto
      next
        fix m assume o: "outcome = Inl (Error m)"
        show ?thesis
        proof (cases "i = max_attempts - 1")
          case True
          define fa where "fa = \<lparr>email = ?e, password = password_const,
                       sessionToken = None, gems = None,
                       timestamp = clock (env i), status = failed, error = Some m\<rparr>"
          have "attempts repr env (i # xs) st
              = ((st\<lparr>accounts := fa # accounts st\<rparr>, GenFailure m (Some fa)), calls)"
            apply (subst attempts.simps)
            apply (simp only: Let_def tb)
            apply (simp add: o True fa_def)
            done
          moreover have "status fa = failed" by (simp add: fa_def)
          ultimately show ?thesis by blast
        next
          case False
          then have "attempts repr env (i # xs) st = apsnd ((@) calls) (attempts repr env xs st)"
            by (simp add: tb o)
          then show ?thesis using Cons.IH by auto
        qed
      qed
    qed
  qed
  then show thesis using that by blast
qed

lemma api_generate_cases:
  obtains (limited) rl where
      "api_generate repr ip now env st = (st\<lparr>rate_limits := rl\<rparr>, Inl (RateLimitExceeded 60))"
  | (exhausted) rl cs where
      "api_generate repr ip now env st
         = (st\<lparr>rate_limits := rl\<rparr>, Inr (GenFailure ''Max attempts reached'' None, cs))"
  | (succeeded) rl cs a where "status a = success"
      "api_generate repr ip now env st
         = (record_success a (st\<lparr>rate_limits := rl\<rparr>), Inr (GenSuccess a, cs))"
  | (gave_up) rl cs a m where "status a = failed"
      "api_generate repr ip now env st
         = (st\<lparr>rate_limits := rl, accounts := a # accounts st\<rparr>, Inr (GenFailure m (Some a), cs))"
proof -
  define kept where "kept = (case rate_limits st ip of
                    Some ts \<Rightarrow> filter (\<lambda>t. now - t < real_of_int 60) ts
                  | None \<Rightarrow> [])"
  define st1 where "st1 = st\<lparr>rate_limits := (rate_limits st)(ip \<mapsto> kept @ [now])\<rparr>"
  show thesis
  proof (cases "5 \<le> length kept")
    case True
    then have "api_generate repr ip now env st
        = (st\<lparr>rate_limits := (rate_limits st)(ip \<mapsto> kept)\<rparr>, Inl (RateLimitExceeded 60))"
      by (simp add: api_generate_def rate_limit_def kept_def[symmetric] Let_def)
    then show thesis by (rule limited)
  next
    case False
    then have e: "api_generate repr ip now env st
        = (case generate_account repr env st1 of ((s', resp), calls) \<Rightarrow> (s', Inr (resp, calls)))"
      by (simp add: api_generate_def rate_limit_def kept_def[symmetric] Let_def st1_def
            split: prod.splits)
    show thesis
    proof (cases rule: attempts_cases[of repr env "[0..<max_attempts]" st1])
      case (exhausted cs)
      then show ?thesis
        using e that(2)[of "(rate_limits st)(ip \<mapsto> kept @ [now])" cs]
        by (simp add: generate_account_def st1_def)
    next
      case (succeeded cs a)
      then show ?thesis
        using e that(3)[of a "(rate_limits st)(ip \<mapsto> kept @ [now])" cs]
        by (simp add: generate_account_def st1_def)
    next
      case (gave_up cs a m)
      then show ?thesis
        using e that(4)[of a "(rate_limits st)(ip \<mapsto> kept @ [now])" m cs]
        by (simp add: generate_account_def st1_def)
    qed
  qed
qed

lemma get_balance_store:
  "\<exists>g. fst (fst (get_balance list_gt r st)) = st\<lparr>settings := (settings st)\<lparr>total_gems := g\<rparr>\<rparr>"
proof -
  have same: "st = st\<lparr>settings := (settings st)\<lparr>total_gems := total_gems (settings st)\<rparr>\<rparr>"
    by simp
  have bf: "fst (balance_failed e s) = s" for e s by (cases e) simp_all
  have "fst (balance_body list_gt r st) = st
      \<or> (\<exists>g. fst (balance_body list_gt r st) = st\<lparr>settings := (settings st)\<lparr>total_gems := g\<rparr>\<rparr>)"
    by (auto simp: balance_body_def store_gems_def Let_def split: reply.splits sum.splits)
  then have "\<exists>g. fst (balance_body list_gt r st) = st\<lparr>settings := (settings st)\<lparr>total_gems := g\<rparr>\<rparr>"
    using same by metis
  then obtain g where g: "fst (balance_body list_gt r st) = st\<lparr>settings := (settings st)\<lparr>total_gems := g\<rparr>\<rparr>"
    by blast
  show ?thesis
  proof (cases "truthy (main_session_token (settings st))")
    case False
    then show ?thesis using same by (auto simp: get_balance_def intro: exI[of _ "total_gems (settings st)"])
  next
    case True
    then show ?thesis
      using g by (cases "balance_body list_gt r st")
        (auto simp: get_balance_def bf split: sum.splits)
  qed
qed

lemma handle_counts:
  "generation_count (settings (handle repr list_gt req st)) =
     (case req of
        ReqClear \<Rightarrow> 0
      | ReqGenerate client_ip now env \<Rightarrow>
          (case snd (api_generate repr client_ip now env st) of
             Inr (GenSuccess a, calls) \<Rightarrow> generation_count (settings st) + 1
           | _ \<Rightarrow> generation_count (settings st))
      | _ \<Rightarrow> generation_count (settings st))"
proof (cases req)
  case (ReqSettings verb body)
  then show ?thesis
    by (cases verb) (simp_all add: handle_settings_post_state merged_def, simp add: handle_settings_def)
next
  case (ReqBalance r)
  then show ?thesis using get_balance_store[of list_gt r st] by auto
next
  case (ReqGenerate ip now env)
  show ?thesis
    by (cases rule: api_generate_cases[of repr ip now env st])
       (simp_all add: ReqGenerate record_success_def)
qed (simp_all add: clear_accounts_def)

lemma handle_successes:
  "successes (handle repr list_gt req st) =
     (case req of
        ReqClear \<Rightarrow> 0
      | ReqGenerate client_ip now env \<Rightarrow>
          (case snd (api_generate repr client_ip now env st) of
             Inr (GenSuccess a, calls) \<Rightarrow> successes st + 1
           | _ \<Rightarrow> successes st)
      | _ \<Rightarrow> successes st)"
proof (cases req)
  case (ReqSettings verb body)
  then show ?thesis
    by (cases verb) (simp_all add: handle_settings_post_state merged_def successes_def, simp add: handle_settings_def)
next
  case (ReqBalance r)
  then show ?thesis using get_balance_store[of list_gt r st] by (auto simp: successes_def)
next
  case (ReqGenerate ip now env)
  show ?thesis
    by (cases rule: api_generate_cases[of repr ip now env st])
       (simp_all add: ReqGenerate record_success_def successes_def)
qed (simp_all add: clear_accounts_def successes_def)

lemma handle_count_consistent:
  "count_consistent st \<Longrightarrow> count_consistent (handle repr list_gt req st)"
  unfolding count_consistent_def handle_counts handle_successes
  by (auto split: request.splits sum.splits prod.splits gen_response.splits)

lemma run_created:
  "generation_count (settings st) = int n \<Longrightarrow>
   generation_count (settings (run repr list_gt reqs st)) = int (created_since_clear repr list_gt reqs st n)"
proof (induction reqs arbitrary: st n)
  case Nil
  then show ?case by simp
next
  case (Cons req reqs)
  show ?case
    unfolding run.simps created_since_clear.simps
    by (rule Cons.IH)
       (auto simp: handle_counts Cons.prems split: request.splits sum.splits prod.splits gen_response.splits)
qed

lemma run_count_consistent:
  "count_consistent st \<Longrightarrow> count_consistent (run repr list_gt reqs st)"
  by (induction reqs arbitrary: st) (simp_all add: handle_count_consistent)

lemma generate_failing:
  "fst (generate_account no_repr env_failing initial) =
     (initial\<lparr>accounts := [failing_record]\<rparr>,
      GenFailure ''connection refused'' (Some failing_record))"
  by (simp add: generate_account_def max_attempts_def upt_rec env_failing_def try_body_def
        initial_def failing_record_def Let_def)

text \<open>
  C3. The counter invariant (\<open>generation_count\<close> equals the number of \<open>success\<close>
  records in the account sequence) holds in the initial state and is kept by every
  request: generate, clear, settings, balance poll, and the read-only ones. After any run
  of requests from the initial state it holds, and the counter equals the number of
  generations that returned success since the last clear. A generation that ends in
  failure with a record puts that \<open>failed\<close> record at the head of the sequence and
  leaves the counter as it was.
\<close>

theorem generation_count_invariant:
  "count_consistent initial
   \<and> (count_consistent st \<longrightarrow> count_consistent (handle repr list_gt req st))
   \<and> count_consistent (run repr list_gt reqs initial)
   \<and> generation_count (settings (run repr list_gt reqs initial))
       = int (created_since_clear repr list_gt reqs initial 0)
   \<and> (snd (fst (generate_account repr env st)) = GenFailure m (Some a) \<longrightarrow>
        status a = failed
        \<and> accounts (fst (fst (generate_account repr env st))) = a # accounts st
        \<and> generation_count (settings (fst (fst (generate_account repr env st))))
            = generation_count (settings st))"
proof -
  have i: "count_consistent initial"
    by (simp add: count_consistent_def successes_def initial_def)
  have g: "generation_count (settings initial) = int 0" by (simp add: initial_def)
  have f: "status a = failed
        \<and> accounts (fst (fst (generate_account repr env st))) = a # accounts st
        \<and> generation_count (settings (fst (fst (generate_account repr env st))))
            = generation_count (settings st)"
    if "snd (fst (generate_account repr env st)) = GenFailure m (Some a)"
    using that unfolding generate_account_def
    by (cases rule: attempts_cases[of repr env "[0..<max_attempts]" st]) auto
  show ?thesis
    using i handle_count_consistent run_count_consistent[OF i] run_created[OF g] f by blast
qed

theorem generation_count_invariant_witness:
  "count_consistent initial
   \<and> count_consistent (handle no_repr no_list_gt (ReqGenerate ''10.0.0.1'' 0 env_third) initial)
   \<and> snd (fst (generate_account no_repr env_failing initial))
       = GenFailure ''connection refused'' (Some failing_record)
   \<and> status failing_record = failed
   \<and> accounts (fst (fst (generate_account no_repr env_failing initial)))
       = failing_record # accounts initial
   \<and> generation_count (settings (fst (fst (generate_account no_repr env_failing initial))))
       = generation_count (settings initial)"
  using generation_count_invariant[of initial no_repr no_list_gt
          "ReqGenerate ''10.0.0.1'' 0 env_third" "[]" env_failing
          "''connection refused''" failing_record]
        generate_failing
  by simp

subsection \<open>Balance polls\<close>

lemma carries_gems_Body:
  "carries_gems r = Some g \<Longrightarrow>
     \<exists>kvs d. r = Body (JObj kvs) \<and> map_of kvs ''code'' = Some (JInt 1)
       \<and> map_of kvs ''data'' = Some (JObj d) \<and> map_of d ''gems'' = Some (JInt g)"
  by (cases r rule: carries_gems.cases)
     (auto split: option.splits json.splits if_splits)

text \<open>
  A poll that succeeds. With a session token configured and an integer \<open>total_gems\<close>
  \<open>old\<close>, a well-formed success reply carrying the gems value \<open>g\<close> sets
  \<open>total_gems\<close> to \<open>g\<close>, and the response has \<open>increased\<close> true exactly
  when \<open>g > old\<close> and \<open>diff\<close> equal to \<open>g - old\<close> when increased and 0
  otherwise.
\<close>

theorem get_balance_success:
  assumes "truthy (main_session_token (settings st))"
    and "carries_gems r = Some g"
    and "total_gems (settings st) = JInt old"
  shows "fst (get_balance list_gt r st) =
           (set_total_gems (JInt g) st,
            BalanceOk (JInt g) (g > old) (if g > old then g - old else 0))"
proof -
  obtain kvs d where r: "r = Body (JObj kvs)" "map_of kvs ''code'' = Some (JInt 1)"
      "map_of kvs ''data'' = Some (JObj d)" "map_of d ''gems'' = Some (JInt g)"
    using carries_gems_Body[OF assms(2)] by blast
  have "d \<noteq> []" using r(4) by auto
  then have "balance_body list_gt r st =
      (set_total_gems (JInt g) st,
       Inr (BalanceOk (JInt g) (g > old) (if g > old then g - old else 0)))"
    using r assms(3)
    by (simp add: balance_body_def store_gems_def py_eq_int_def bind_exn_def py_sub_def
          set_total_gems_def)
  then show ?thesis using assms(1) by (simp add: get_balance_def)
qed

theorem get_balance_success_witness:
  "truthy (main_session_token (settings configured))
   \<and> carries_gems session_reply = Some 5
   \<and> total_gems (settings configured) = JInt 0
   \<and> fst (get_balance no_list_gt session_reply configured) =
           (set_total_gems (JInt 5) configured, BalanceOk (JInt 5) True 5)"
proof -
  have 1: "truthy (main_session_token (settings configured))"
    by (simp add: configured_def)
  have 2: "carries_gems session_reply = Some 5" by (simp add: session_reply_def)
  have 3: "total_gems (settings configured) = JInt 0"
    by (simp add: configured_def initial_def)
  show ?thesis
    using 1 2 3 get_balance_success[OF 1 2 3, of no_list_gt] by simp
qed

text \<open>
  What holds of a poll that does not succeed: without a token the backend is not
  contacted and the response is gems 0 with the annotation; a timeout or a raised
  request leaves the store as it was and answers with the stored \<open>total_gems\<close>; and
  \<open>total_gems\<close> changes only on a reply of the success shape.
\<close>

lemma get_balance_unconfigured:
  "\<not> truthy (main_session_token (settings st)) \<Longrightarrow>
     get_balance list_gt r st = ((st, BalanceError (JInt 0) ''No session token configured''), [])"
  by (simp add: get_balance_def)

lemma get_balance_timeout:
  "truthy (main_session_token (settings st)) \<Longrightarrow>
     fst (get_balance list_gt TimedOut st)
       = (st, BalanceError (total_gems (settings st)) ''Request timed out'')"
  by (simp add: get_balance_def balance_body_def)

lemma get_balance_raised:
  "truthy (main_session_token (settings st)) \<Longrightarrow>
     fst (get_balance list_gt (Failed m) st) = (st, BalanceError (total_gems (settings st)) m)"
  by (simp add: get_balance_def balance_body_def)

lemma get_balance_keeps_gems:
  assumes "total_gems (settings (fst (fst (get_balance list_gt r st)))) \<noteq> total_gems (settings st)"
  shows "\<exists>kvs c d. r = Body (JObj kvs) \<and> map_of kvs ''code'' = Some c \<and> py_eq_int c 1
           \<and> map_of kvs ''data'' = Some (JObj d) \<and> d \<noteq> []"
proof -
  have bf: "fst (balance_failed e s) = s" for e s by (cases e) simp_all
  have t: "truthy (main_session_token (settings st))"
    using assms by (auto simp: get_balance_def split: if_splits)
  then have "fst (fst (get_balance list_gt r st)) = fst (balance_body list_gt r st)"
    by (cases "balance_body list_gt r st") (auto simp: get_balance_def bf split: sum.splits)
  then have n: "total_gems (settings (fst (balance_body list_gt r st))) \<noteq> total_gems (settings st)"
    using assms by simp
  then obtain data where r: "r = Body data"
    by (cases r) (auto simp: balance_body_def)
  from n obtain kvs where d: "data = JObj kvs"
    unfolding r by (cases data) (auto simp: balance_body_def)
  from n obtain c where c: "map_of kvs ''code'' = Some c" "py_eq_int c 1"
    unfolding r d by (cases "map_of kvs ''code''") (auto simp: balance_body_def py_eq_int_def split: if_splits)
  from n c obtain v where v: "map_of kvs ''data'' = Some v" "truthy v"
    unfolding r d by (cases "map_of kvs ''data''") (auto simp: balance_body_def split: if_splits)
  from n c v obtain dd where "v = JObj dd"
    unfolding r d by (cases v) (auto simp: balance_body_def split: if_splits)
  then show ?thesis using r d c v by auto
qed

text \<open>
  C5, where the code departs from it. The reply \<open>{"code": 1, "data": {"gems": null}}\<close>
  has the success shape, so its \<open>gems\<close> is stored before the response is built; the
  comparison \<open>None > 0\<close> then raises, and the \<open>except\<close> clause answers with the
  annotation and the value just stored. \<open>total_gems\<close> was 0 and is now \<open>None\<close>:
  the failure did not leave it unchanged.
\<close>

theorem get_balance_null_gems:
  "get_balance no_list_gt null_gems_reply configured =
     ((set_total_gems JNull configured,
       BalanceError JNull
         (quoted ''>'' @ '' not supported between instances of ''
            @ quoted ''NoneType'' @ '' and '' @ quoted ''int'')),
      [BalanceInit (JStr ''main'')])
   \<and> total_gems (settings configured) = JInt 0"
  by (simp add: get_balance_def balance_body_def store_gems_def null_gems_reply_def
        configured_def initial_def py_eq_int_def bind_exn_def not_supported_def set_total_gems_def)

text \<open>
  C6, where the code departs from it. The store is the one reached from the initial
  state by configuring a token and polling once with the reply
  \<open>{"code": 1, "data": {"gems": null}}\<close>: its \<open>total_gems\<close> is \<open>None\<close>.
  The next poll gets a well-formed success reply carrying the gems value 5. The value 5
  is stored, the comparison \<open>5 > None\<close> raises, and the response is the error
  annotation with no \<open>increased\<close> flag and no \<open>diff\<close>.
\<close>

theorem get_balance_after_null_gems:
  "run no_repr no_list_gt null_then_five initial = set_total_gems JNull configured
   \<and> carries_gems session_reply = Some 5
   \<and> get_balance no_list_gt session_reply (run no_repr no_list_gt null_then_five initial) =
       ((set_total_gems (JInt 5) configured,
         BalanceError (JInt 5)
           (quoted ''>'' @ '' not supported between instances of ''
              @ quoted ''int'' @ '' and '' @ quoted ''NoneType'')),
        [BalanceInit (JStr ''main'')])"
proof -
  have r: "run no_repr no_list_gt null_then_five initial = set_total_gems JNull configured"
    by (simp add: null_then_five_def handle_settings_def set_main_session_token_def
          set_local_id_def bind_exn_def py_or_def get_balance_def balance_body_def
          store_gems_def null_gems_reply_def configured_def initial_def py_eq_int_def
          not_supported_def set_total_gems_def Let_def)
  have c: "carries_gems session_reply = Some 5" by (simp add: session_reply_def)
  have g: "get_balance no_list_gt session_reply (set_total_gems JNull configured) =
       ((set_total_gems (JInt 5) configured,
         BalanceError (JInt 5)
           (quoted ''>'' @ '' not supported between instances of ''
              @ quoted ''int'' @ '' and '' @ quoted ''NoneType'')),
        [BalanceInit (JStr ''main'')])"
    by (simp add: get_balance_def balance_body_def store_gems_def session_reply_def
          configured_def initial_def py_eq_int_def bind_exn_def not_supported_def
          set_total_gems_def)
  show ?thesis using r c g by simp
qed

subsection \<open>Export\<close>

lemma split_on_line: "c \<notin> set l \<Longrightarrow> split_on c l = [l]"
  by (induction l) auto

lemma split_on_append:
  "c \<notin> set l \<Longrightarrow> split_on c (l @ c # rest) = l # split_on c rest"
  by (induction l) auto

lemma split_on_join:
  "ls \<noteq> [] \<Longrightarrow> \<forall>l\<in>set ls. c \<notin> set l \<Longrightarrow> split_on c (join [c] ls) = ls"
proof (induction "[c]" ls rule: join.induct)
  case (3 x y ys)
  then show ?case by (simp add: split_on_append)
qed (simp_all add: split_on_line)

lemma email_lines_join:
  assumes "\<forall>l\<in>set ls. newline \<notin> set l"
  shows "email_lines (join [newline] ls) = filter (prefix ''Email:'') ls"
proof (cases "ls = []")
  case True
  then show ?thesis by (simp add: email_lines_def)
next
  case False
  then show ?thesis using assms by (simp add: email_lines_def split_on_join)
qed

lemma account_lines_email:
  "filter (prefix ''Email:'') (account_lines repr a) = [''Email: '' @ email a]"
  by (simp add: account_lines_def)

lemma account_lines_single:
  "single_line_fields repr a \<Longrightarrow> \<forall>l\<in>set (account_lines repr a). newline \<notin> set l"
  by (auto simp: single_line_fields_def account_lines_def newline_def)

lemma filter_concat_lines:
  "filter (prefix ''Email:'') (concat (map (account_lines repr) as))
     = map (\<lambda>a. ''Email: '' @ email a) as"
  by (induction as) (simp_all add: account_lines_email)

text \<open>
  C7, as it fails. A \<open>success\<close> record whose session token has a line feed followed
  by \<open>Email: y\<close> gives an export text with two lines that start with \<open>Email:\<close>
  for one \<open>success\<close> record.
\<close>

theorem export_email_lines_counterexample:
  "email_lines (content (export_accounts no_repr injected))
     = [''Email: test100000@example.com'', ''Email: y'']
   \<and> length (filter (\<lambda>a. status a = success) (accounts injected)) = 1"
  by (simp add: injected_def export_accounts_def account_lines_def email_lines_def newline_def
        password_const_def show_int_def show_nat.simps digit_char_def)

text \<open>
  C7, amended. For every account sequence in which no \<open>success\<close> record has a line
  feed in the text of its email, password, session token or gems, the lines of the
  export text that start with \<open>Email:\<close> are exactly one per \<open>success\<close> record,
  in order, each with that record's email, and none for a \<open>failed\<close> record; the count
  field is the number of \<open>success\<close> records.
\<close>

theorem export_email_lines:
  assumes "\<forall>a\<in>set (accounts st). status a = success \<longrightarrow> single_line_fields repr a"
  shows "email_lines (content (export_accounts repr st))
           = map (\<lambda>a. ''Email: '' @ email a) (filter (\<lambda>a. status a = success) (accounts st))
         \<and> count (export_accounts repr st)
           = length (filter (\<lambda>a. status a = success) (accounts st))"
proof -
  let ?ok = "filter (\<lambda>a. status a = success) (accounts st)"
  have "\<forall>l\<in>set (concat (map (account_lines repr) ?ok)). newline \<notin> set l"
    using assms account_lines_single by fastforce
  from email_lines_join[OF this]
  show ?thesis by (simp add: export_accounts_def filter_concat_lines Let_def)
qed

theorem export_email_lines_witness:
  "email_lines (content (export_accounts no_repr mixed)) = [''Email: test100000@example.com'']
   \<and> count (export_accounts no_repr mixed) = 1"
proof -
  have "\<forall>a\<in>set (accounts mixed). status a = success \<longrightarrow> single_line_fields no_repr a"
    by (simp add: mixed_def single_line_fields_def newline_def failing_record_def
          password_const_def show_int_def show_nat.simps digit_char_def)
  from export_email_lines[OF this]
  show ?thesis by (simp add: mixed_def failing_record_def)
qed

subsection \<open>The rate limiter\<close>

lemma in_window_fun: "in_window now = (\<lambda>t. now - t < 60)"
  by (simp add: fun_eq_iff in_window_def)

lemma generate_account_ledger:
  "rate_limits (fst (fst (generate_account repr env st))) = rate_limits st"
  unfolding generate_account_def
  by (cases rule: attempts_cases[of repr env "[0..<max_attempts]" st])
     (simp_all add: record_success_def)

lemma api_generate_limited:
  "5 \<le> length (filter (in_window now) (ledger st c)) \<Longrightarrow>
     api_generate repr c now env st = (prune c now st, Inl (RateLimitExceeded 60))"
  by (simp add: api_generate_def rate_limit_def prune_def ledger_def in_window_fun Let_def
        split: option.splits)

lemma api_generate_isl:
  "isl (snd (api_generate repr c now env st)) \<longleftrightarrow> 5 \<le> length (filter (in_window now) (ledger st c))"
  by (simp add: api_generate_def rate_limit_def ledger_def in_window_fun Let_def
        split: option.splits prod.splits)

lemma api_generate_ledger:
  "rate_limits (fst (api_generate repr c now env st)) =
     (rate_limits st)(c \<mapsto> filter (in_window now) (ledger st c)
        @ (if isl (snd (api_generate repr c now env st)) then [] else [now]))"
proof (cases "5 \<le> length (filter (in_window now) (ledger st c))")
  case True
  then show ?thesis
    using api_generate_isl[of repr c now env st]
    by (simp add: api_generate_limited prune_def)
next
  case False
  define st1 where "st1 = st\<lparr>rate_limits := (rate_limits st)(c \<mapsto> filter (in_window now) (ledger st c) @ [now])\<rparr>"
  have "fst (api_generate repr c now env st) = fst (fst (generate_account repr env st1))"
    using False
    by (simp add: api_generate_def rate_limit_def ledger_def in_window_fun Let_def st1_def
          split: option.splits prod.splits)
  then have "rate_limits (fst (api_generate repr c now env st)) = rate_limits st1"
    by (simp add: generate_account_ledger)
  then show ?thesis
    using False api_generate_isl[of repr c now env st] by (simp add: st1_def)
qed

lemma handle_ledger_other:
  assumes "\<And>t env. req \<noteq> ReqGenerate c t env"
  shows "ledger (handle repr list_gt req st) c = ledger st c"
proof (cases req)
  case (ReqSettings verb body)
  then show ?thesis
    by (cases verb) (simp_all add: ledger_def handle_settings_post_state merged_def, simp add: handle_settings_def)
next
  case (ReqBalance r)
  then show ?thesis using get_balance_store[of list_gt r st] by (auto simp: ledger_def)
next
  case (ReqGenerate ip t env)
  then have "ip \<noteq> c" using assms by auto
  then show ?thesis by (simp add: ReqGenerate ledger_def api_generate_ledger)
qed (simp_all add: ledger_def clear_accounts_def)

lemma handle_ledger_generate:
  "ledger (handle repr list_gt (ReqGenerate c t env) st) c =
     filter (in_window t) (ledger st c)
       @ (if isl (snd (api_generate repr c t env st)) then [] else [t])"
  by (simp add: ledger_def api_generate_ledger)

lemma in_window_mono: "t \<le> now \<Longrightarrow> in_window now e \<Longrightarrow> in_window t e"
  by (simp add: in_window_def)

lemma filter_in_window_twice:
  "t \<le> now \<Longrightarrow> filter (\<lambda>e. in_window t e \<and> in_window now e) xs = filter (in_window now) xs"
  by (rule filter_cong) (auto dest: in_window_mono)

lemma run_ledger:
  assumes "\<forall>t\<in>set (generate_times c reqs). t \<le> now"
  shows "filter (in_window now) (ledger (run repr list_gt reqs st) c)
           = filter (in_window now) (ledger st c)
             @ filter (in_window now) (admitted_times repr list_gt c reqs st)"
  using assms
proof (induction reqs arbitrary: st)
  case Nil
  then show ?case by simp
next
  case (Cons req reqs)
  have rest: "\<forall>t\<in>set (generate_times c reqs). t \<le> now"
    using Cons.prems by (cases req) (auto split: if_splits)
  note IH = Cons.IH[OF rest, of "handle repr list_gt req st"]
  show ?case
  proof (cases "\<exists>t env. req = ReqGenerate c t env")
    case True
    then obtain t env where r: "req = ReqGenerate c t env" by blast
    then have "t \<le> now" using Cons.prems by simp
    then show ?thesis
      using IH unfolding r
      by (simp add: handle_ledger_generate filter_in_window_twice del: handle.simps)
  next
    case False
    then have "ledger (handle repr list_gt req st) c = ledger st c"
      by (intro handle_ledger_other) auto
    moreover have "admitted_times repr list_gt c (req # reqs) st
        = admitted_times repr list_gt c reqs (handle repr list_gt req st)"
      using False by (cases req) auto
    ultimately show ?thesis using IH by simp
  qed
qed

lemma ledger_initial: "ledger initial c = []"
  by (simp add: ledger_def initial_def)

lemma five_calls_admitted:
  "admitted_times no_repr no_list_gt ''10.0.0.1'' five_calls initial = [0, 1, 2, 3, 4]"
  by (simp add: five_calls_def api_generate_isl handle_ledger_generate ledger_initial
        in_window_def del: handle.simps)

text \<open>
  C8. Take any store, any run of requests from it (of any kind, from any clients), and a
  client \<open>c\<close> whose generate requests in the run came no later than \<open>now\<close>. If at
  least 5 generate requests of \<open>c\<close> in the run were let through by the limiter (so
  their timestamps are in the ledger) and have their timestamps within the trailing
  60-second window of \<open>now\<close>, then a generate request of \<open>c\<close> at \<open>now\<close> is
  rejected with the rate-limit error whose \<open>retry_after\<close> is 60, the window size. The
  generation workflow does not run for it: the response carries no generation result and
  no outbound request, and the store is the one before the request with the client's
  ledger entry pruned, accounts and settings untouched.
\<close>

theorem sixth_generate_rejected:
  assumes "\<forall>t\<in>set (generate_times c reqs). t \<le> now"
    and "5 \<le> length (filter (in_window now) (admitted_times repr list_gt c reqs st))"
  shows "api_generate repr c now env (run repr list_gt reqs st)
           = (prune c now (run repr list_gt reqs st), Inl (RateLimitExceeded 60))
         \<and> accounts (prune c now (run repr list_gt reqs st)) = accounts (run repr list_gt reqs st)
         \<and> settings (prune c now (run repr list_gt reqs st)) = settings (run repr list_gt reqs st)"
proof -
  have "5 \<le> length (filter (in_window now) (ledger (run repr list_gt reqs st) c))"
    using assms(2) by (simp add: run_ledger[OF assms(1)])
  then show ?thesis by (simp add: api_generate_limited) (simp add: prune_def)
qed

theorem sixth_generate_rejected_witness:
  "api_generate no_repr ''10.0.0.1'' 5 env_first (run no_repr no_list_gt five_calls initial)
     = (prune ''10.0.0.1'' 5 (run no_repr no_list_gt five_calls initial), Inl (RateLimitExceeded 60))
   \<and> accounts (prune ''10.0.0.1'' 5 (run no_repr no_list_gt five_calls initial))
       = accounts (run no_repr no_list_gt five_calls initial)
   \<and> settings (prune ''10.0.0.1'' 5 (run no_repr no_list_gt five_calls initial))
       = settings (run no_repr no_list_gt five_calls initial)"
proof -
  have 1: "\<forall>t\<in>set (generate_times ''10.0.0.1'' five_calls). t \<le> 5"
    by (simp add: five_calls_def)
  have 2: "5 \<le> length (filter (in_window 5)
             (admitted_times no_repr no_list_gt ''10.0.0.1'' five_calls initial))"
    by (simp add: five_calls_admitted in_window_def)
  show ?thesis using sixth_generate_rejected[OF 1 2, of env_first] .
qed

end
